theory Spec2Isabelle
  imports Complex_Main "HOL-Library.AList"
begin

section \<open>JavaScript values\<close>

text \<open>
  Every scalar field of an input record is a string or absent. \<open>None\<close> stands for a field
  that is missing, \<open>undefined\<close> or \<open>null\<close>. A value is truthy when it is a non-empty string:
  this is the test behind \<open>!item.name\<close>, \<open>a || b\<close> and \<open>if (category)\<close>.
  Numbers are JavaScript doubles in the source; they are modelled as reals, so rounding,
  overflow to infinity and underflow to zero are outside the model.
\<close>

definition truthy :: "string option \<Rightarrow> bool" where
  "truthy v = (case v of None \<Rightarrow> False | Some s \<Rightarrow> s \<noteq> [])"

text \<open>\<open>a || b\<close> on two such values.\<close>

definition js_or :: "string option \<Rightarrow> string option \<Rightarrow> string option" where
  "js_or a b = (if truthy a then a else b)"

section \<open>Hierarchy normalizer: \<open>transformData\<close>\<close>

record item_fields =
  item_name :: "string option"
  item_status :: "string option"
  item_link :: "string option"
  item_links :: "string option"
  item_category :: "string option"
  item_side :: "string option"
  item_visibility :: "string option"

text \<open>
  An item of the input: \<open>RawNull\<close> is a \<open>null\<close> entry, \<open>RawItem f its\<close> a record with scalar
  fields \<open>f\<close>; \<open>its\<close> is \<open>Some\<close> of the \<open>items\<close> array, and \<open>None\<close> when \<open>items\<close> is missing or
  is not an array.
\<close>

datatype raw_item = RawNull | RawItem item_fields "raw_item list option"

datatype raw_root = RootArray "raw_item list" | RootObject raw_item

record node_fields =
  name :: string
  status :: "string option"
  link :: "string option"
  category :: "string option"
  side :: "string option"
  visibility :: "string option"

text \<open>
  A normalized node. The children are \<open>None\<close> once \<open>delete node.children\<close> has run, and
  \<open>Some cs\<close> while the field is there (the synthetic root keeps an empty array).
\<close>

datatype node = Node (node_data: node_fields) (node_children: "node list option")

text \<open>
  \<open>createHierarchy\<close> returns the arguments of the \<open>console.warn\<close> calls it made, in order,
  and its result (\<open>None\<close> for \<open>null\<close>).
\<close>

fun createHierarchy :: "raw_item \<Rightarrow> raw_item list \<times> node option" where
  "createHierarchy RawNull = ([RawNull], None)"
| "createHierarchy (RawItem f its) =
    (case item_name f of
       None \<Rightarrow> ([RawItem f its], None)
     | Some n \<Rightarrow>
        if n = [] then ([RawItem f its], None)
        else
          let rs = (case its of None \<Rightarrow> [] | Some xs \<Rightarrow> map createHierarchy xs);
              kids = List.map_filter snd rs
          in (concat (map fst rs),
              Some (Node \<lparr> name = n,
                           status = js_or (item_status f) None,
                           link = js_or (item_links f) (js_or (item_link f) None),
                           category = js_or (item_category f) None,
                           side = js_or (item_side f) None,
                           visibility = js_or (item_visibility f) None \<rparr>
                         (if length kids = 0 then None else Some kids))))"

definition synthetic_root :: node_fields where
  "synthetic_root = \<lparr> name = ''Root'', status = None, link = None, category = None,
                      side = None, visibility = None \<rparr>"

definition transformData :: "raw_root \<Rightarrow> raw_item list \<times> node option" where
  "transformData d =
    (case d of
       RootArray xs \<Rightarrow>
         if length xs = 1 then createHierarchy (xs ! 0)
         else
           let rs = map createHierarchy xs
           in (concat (map fst rs), Some (Node synthetic_root (Some (List.map_filter snd rs))))
     | RootObject x \<Rightarrow> createHierarchy x)"

section \<open>Layout nodes\<close>

definition TEXT_FONT_SIZE :: real where "TEXT_FONT_SIZE = 60"
definition TEXT_LINE_HEIGHT :: real where "TEXT_LINE_HEIGHT = 70"
definition NODE_SIZE :: real where "NODE_SIZE = 200"
definition LEAF_HEIGHT :: real where "LEAF_HEIGHT = 100"
definition LEAF_WIDTH :: real where "LEAF_WIDTH = 400"

record settings =
  nodeSpacingVertical :: real
  nodeSpacingHorizontal :: real
  nodeScale :: real
  textScale :: real
  edgeWidth :: real
  staggerOffset :: real
  hideLeaves :: bool
  colorMode :: string

definition defaultConfig :: settings where
  "defaultConfig = \<lparr> nodeSpacingVertical = 200, nodeSpacingHorizontal = 1000,
                      nodeScale = 1.2, textScale = 1.3, edgeWidth = 10, staggerOffset = 0.2,
                      hideLeaves = False, colorMode = ''status'' \<rparr>"

text \<open>
  A node of the \<open>d3.hierarchy\<close>: \<open>data\<close> is the normalized record, \<open>node_x\<close> and \<open>node_y\<close>
  are \<open>d.x\<close> and \<open>d.y\<close>. A numeric field that the source has not assigned yet holds 0 here;
  every pass reads only fields that an earlier pass assigned. The three inherited fields
  are \<open>None\<close> while they are \<open>undefined\<close>.
\<close>

record layout_node =
  data :: node_fields
  depth :: nat
  node_x :: real
  node_y :: real
  originalX :: real
  depthScale :: real
  nodeWidth :: real
  nodeHeight :: real
  inheritedCategory :: "string option"
  inheritedSide :: "string option"
  inheritedVisibility :: "string option"

text \<open>
  The tree of layout nodes. \<open>d.children\<close> is \<open>undefined\<close> exactly when the list is empty
  (\<open>d3.hierarchy\<close> leaves the field out for a node without children), so \<open>!d.children\<close> is
  \<open>children t = []\<close>. The parent reference \<open>d.parent\<close> is not stored: a pass that walks it
  receives the data of the ancestors, nearest first.
\<close>

datatype lnode = LNode (lfields: layout_node) (children: "lnode list")

definition is_leaf :: "lnode \<Rightarrow> bool" where
  "is_leaf t = (children t = [])"

definition fresh :: "node_fields \<Rightarrow> nat \<Rightarrow> layout_node" where
  "fresh f d = \<lparr> data = f, depth = d, node_x = 0, node_y = 0, originalX = 0, depthScale = 0,
                 nodeWidth = 0, nodeHeight = 0, inheritedCategory = None,
                 inheritedSide = None, inheritedVisibility = None \<rparr>"

fun hierarchy_from :: "nat \<Rightarrow> node \<Rightarrow> lnode" where
  "hierarchy_from d (Node f cs) =
     LNode (fresh f d) (case cs of None \<Rightarrow> [] | Some xs \<Rightarrow> map (hierarchy_from (Suc d)) xs)"

datatype error = TypeError

text \<open>
  \<open>d3.hierarchy(hierarchyData)\<close>, a library call: it reads \<open>data.children\<close> of its argument,
  which throws a \<open>TypeError\<close> on \<open>null\<close>; \<open>initVisualization\<close> does not catch it.
\<close>

definition hierarchy :: "node option \<Rightarrow> error + lnode" where
  "hierarchy h = (case h of None \<Rightarrow> Inl TypeError | Some n \<Rightarrow> Inr (hierarchy_from 0 n))"

text \<open>A callback of \<open>root.descendants().forEach\<close> that reads and writes one node only.\<close>

fun each :: "(layout_node \<Rightarrow> layout_node) \<Rightarrow> lnode \<Rightarrow> lnode" where
  "each f (LNode d cs) = LNode (f d) (map (each f) cs)"

fun tree_size :: "lnode \<Rightarrow> nat" where
  "tree_size (LNode d cs) = Suc (sum_list (map tree_size cs))"

lemma tree_size_children_less:
  "ts \<noteq> [] \<Longrightarrow> sum_list (map tree_size (concat (map children ts))) < sum_list (map tree_size ts)"
proof (induction ts)
  case Nil
  then show ?case by simp
next
  case (Cons t ts)
  obtain d cs where t: "t = LNode d cs" by (cases t)
  show ?case
  proof (cases "ts = []")
    case True
    then show ?thesis using t by simp
  next
    case False
    then show ?thesis using Cons.IH t by simp
  qed
qed

text \<open>
  \<open>root.descendants()\<close>: the nodes in breadth-first order, level by level, the root first.
\<close>

function levels :: "lnode list \<Rightarrow> layout_node list" where
  "levels [] = []"
| "levels (t # ts) = map lfields (t # ts) @ levels (concat (map children (t # ts)))"
  by pat_completeness auto
termination
proof (relation "measure (\<lambda>ts. sum_list (map tree_size ts))")
  show "wf (measure (\<lambda>ts. sum_list (map tree_size ts)))" by simp
next
  fix t ts
  have "sum_list (map tree_size (concat (map children (t # ts))))
          < sum_list (map tree_size (t # ts))"
    by (rule tree_size_children_less) simp
  then show "(concat (map children (t # ts)), t # ts)
               \<in> measure (\<lambda>ts. sum_list (map tree_size ts))"
    by simp
qed

definition descendants :: "lnode \<Rightarrow> layout_node list" where
  "descendants t = levels [t]"

section \<open>Text wrapper and sizing pass\<close>

definition is_ws :: "char \<Rightarrow> bool" where
  "is_ws c = (c \<in> set [CHR 0x09, CHR 0x0A, CHR 0x0B, CHR 0x0C, CHR 0x0D, CHR '' ''])"

text \<open>
  \<open>text.split(/\s+/)\<close>: the pieces between the maximal runs of whitespace; the result always
  has at least one piece. Strings are byte lists, so only the ASCII whitespace is recognised
  and \<open>length\<close> agrees with JavaScript's on ASCII text.
\<close>

function split_from :: "string \<Rightarrow> string \<Rightarrow> string list" where
  "split_from cur [] = [cur]"
| "split_from cur (c # cs) =
     (if is_ws c then cur # split_from [] (dropWhile is_ws cs) else split_from (cur @ [c]) cs)"
  by pat_completeness auto
termination
  by (relation "measure (\<lambda>(cur, cs). length cs)")
     (auto simp: length_dropWhile_le less_Suc_eq_le)

definition split_ws :: "string \<Rightarrow> string list" where
  "split_ws text = split_from [] text"

text \<open>The loop of \<open>wrapText\<close> from index 1: the words left, the lines pushed, the current line.\<close>

fun wrap_loop :: "real \<Rightarrow> string list \<Rightarrow> string list \<Rightarrow> string \<Rightarrow> string list" where
  "wrap_loop maxWidth [] lines currentLine = lines @ [currentLine]"
| "wrap_loop maxWidth (w # ws) lines currentLine =
     (let testLine = currentLine @ '' '' @ w;
          testLength = (real (length testLine) * TEXT_FONT_SIZE) / 2
      in if testLength > maxWidth \<and> length currentLine > 0
         then wrap_loop maxWidth ws (lines @ [currentLine]) w
         else wrap_loop maxWidth ws lines testLine)"

definition wrapText :: "string \<Rightarrow> real \<Rightarrow> string list" where
  "wrapText text maxWidth =
     (case split_ws text of [] \<Rightarrow> [] | w # ws \<Rightarrow> wrap_loop maxWidth ws [] w)"

definition set_size :: "settings \<Rightarrow> bool \<Rightarrow> layout_node \<Rightarrow> layout_node" where
  "set_size s isLeaf d =
     (let ds = 0.85 ^ depth d in
      if isLeaf then
        let w = LEAF_WIDTH * nodeScale s * ds;
            lineHeight = TEXT_LINE_HEIGHT * textScale s * ds;
            padding = 20 * ds;
            maxTextWidth = w - padding * 2;
            numLines = length (wrapText (name (data d)) maxTextWidth);
            minHeight = LEAF_HEIGHT * nodeScale s * ds;
            textHeight = real numLines * lineHeight + padding * 2
        in d\<lparr> depthScale := ds, nodeWidth := w, nodeHeight := max minHeight textHeight \<rparr>
      else
        let radius = NODE_SIZE * nodeScale s * ds
        in d\<lparr> depthScale := ds, nodeWidth := radius * 2, nodeHeight := radius * 2 \<rparr>)"

fun sizing :: "settings \<Rightarrow> lnode \<Rightarrow> lnode" where
  "sizing s (LNode d cs) = LNode (set_size s (cs = []) d) (map (sizing s) cs)"

section \<open>Attribute inheritance resolver\<close>

text \<open>
  The upward walk \<open>while (ancestor && !ancestor.data.category) ancestor = ancestor.parent\<close>
  over the chain of parents, nearest first; \<open>None\<close> is the \<open>null\<close> above the root.
\<close>

fun walk_up :: "(node_fields \<Rightarrow> string option) \<Rightarrow> node_fields list \<Rightarrow> node_fields option" where
  "walk_up get [] = None"
| "walk_up get (a # as) = (if \<not> truthy (get a) then walk_up get as else Some a)"

text \<open>
  One of the three blocks of the resolver for a node with record \<open>own\<close>, parents \<open>ps\<close> and
  current inherited value \<open>old\<close>; the field is assigned only where the source assigns it.
\<close>

definition inherit ::
  "(node_fields \<Rightarrow> string option) \<Rightarrow> node_fields \<Rightarrow> node_fields list \<Rightarrow> string option
     \<Rightarrow> string option" where
  "inherit get own ps old =
     (if \<not> truthy (get own) \<and> ps \<noteq> [] then
        (case walk_up get ps of
           None \<Rightarrow> old
         | Some a \<Rightarrow> if truthy (get a) then get a else old)
      else if truthy (get own) then get own
      else old)"

definition resolve_node :: "node_fields list \<Rightarrow> layout_node \<Rightarrow> layout_node" where
  "resolve_node ps d =
     d\<lparr> inheritedCategory := inherit category (data d) ps (inheritedCategory d),
        inheritedSide := inherit side (data d) ps (inheritedSide d),
        inheritedVisibility := inherit visibility (data d) ps (inheritedVisibility d) \<rparr>"



section \<open>Side inversion and leaf clustering\<close>

datatype side_t = SideLeft | SideRight

definition getNodeSide :: "layout_node \<Rightarrow> side_t" where
  "getNodeSide d =
     (if js_or (inheritedSide d) (side (data d)) = Some ''left'' then SideLeft else SideRight)"

definition swap_xy :: "layout_node \<Rightarrow> layout_node" where
  "swap_xy d = d\<lparr> node_x := node_y d, node_y := node_x d \<rparr>"

definition store_originalX :: "layout_node \<Rightarrow> layout_node" where
  "store_originalX d = d\<lparr> originalX := node_x d \<rparr>"

definition invert_side :: "layout_node \<Rightarrow> layout_node" where
  "invert_side d = (if getNodeSide d = SideLeft then d\<lparr> node_x := - originalX d \<rparr> else d)"

definition direction :: "layout_node \<Rightarrow> real" where
  "direction d = (if getNodeSide d = SideLeft then - 1 else 1)"

text \<open>The callback of the two-column branch, for the child at \<open>index\<close> of parent \<open>d\<close>.\<close>

definition grid_child :: "settings \<Rightarrow> layout_node \<Rightarrow> nat \<Rightarrow> nat \<Rightarrow> layout_node \<Rightarrow> layout_node" where
  "grid_child s d numChildren index child =
     (let leafHorizontalOffset = nodeSpacingHorizontal s * 0.5;
          columnSpacing = nodeSpacingHorizontal s * 0.3;
          rowSpacing = nodeSpacingVertical s * 1.2;
          column = index mod 2;
          row = real_of_int \<lfloor>real index / 2\<rfloor>;
          totalRows = real_of_int \<lceil>real numChildren / 2\<rceil>;
          totalHeight = (totalRows - 1) * rowSpacing;
          startY = node_y d - totalHeight / 2
      in child\<lparr> node_y := startY + row * rowSpacing,
                node_x := node_x d + leafHorizontalOffset * direction d
                          + (if column = 0 then - columnSpacing / 2 else columnSpacing / 2) \<rparr>)"

definition column_child :: "settings \<Rightarrow> layout_node \<Rightarrow> layout_node \<Rightarrow> layout_node" where
  "column_child s d child =
     child\<lparr> node_x := node_x d + nodeSpacingHorizontal s * 0.5 * direction d \<rparr>"

text \<open>The body of the clustering callback for a parent \<open>d\<close> whose children are all leaves.\<close>

definition arrange :: "settings \<Rightarrow> layout_node \<Rightarrow> lnode list \<Rightarrow> lnode list" where
  "arrange s d cs =
     (let numChildren = length cs in
      if numChildren > 2
      then map (\<lambda>(index, c). LNode (grid_child s d numChildren index (lfields c)) (children c))
             (enumerate 0 cs)
      else map (\<lambda>c. LNode (column_child s d (lfields c)) (children c)) cs)"

text \<open>
  The clustering pass. It writes only to leaves and reads only the coordinates of their
  parent, which has children and so is never written: the order of the traversal does not
  matter, and the pass is a recursion over the tree.
\<close>

fun cluster :: "settings \<Rightarrow> lnode \<Rightarrow> lnode" where
  "cluster s (LNode d cs) =
     (if length cs > 0 \<and> list_all is_leaf cs then LNode d (arrange s d cs)
      else LNode d (map (cluster s) cs))"

text \<open>Lines 274 to 340: axis swap, capture of \<open>originalX\<close>, side inversion, clustering.\<close>

definition orient :: "settings \<Rightarrow> lnode \<Rightarrow> lnode" where
  "orient s t = cluster s (each invert_side (each store_originalX (each swap_xy t)))"

section \<open>Category aggregator\<close>

record bounds =
  rect_x :: real
  rect_y :: real
  rect_width :: real
  rect_height :: real

definition categoryPadding :: real where "categoryPadding = 150"
definition categorySpacing :: real where "categorySpacing = 300"

text \<open>
  A running minimum or maximum that starts at \<open>Infinity\<close> or \<open>-Infinity\<close>: \<open>None\<close> is the
  infinite start value, which the reals do not have.
\<close>

definition math_min :: "real option \<Rightarrow> real \<Rightarrow> real option" where
  "math_min acc v = Some (case acc of None \<Rightarrow> v | Some m \<Rightarrow> min m v)"

definition math_max :: "real option \<Rightarrow> real \<Rightarrow> real option" where
  "math_max acc v = Some (case acc of None \<Rightarrow> v | Some m \<Rightarrow> max m v)"

text \<open>
  \<open>calculateCategoryBounds\<close>; \<open>None\<close> for an empty list of nodes, where the source returns a
  rectangle of infinite coordinates.
\<close>

definition calculateCategoryBounds :: "layout_node list \<Rightarrow> real \<Rightarrow> bounds option" where
  "calculateCategoryBounds categoryNodes padding =
     (let minX = fold (\<lambda>d acc. math_min acc (node_x d - nodeWidth d / 2)) categoryNodes None;
          maxX = fold (\<lambda>d acc. math_max acc (node_x d + nodeWidth d / 2)) categoryNodes None;
          minY = fold (\<lambda>d acc. math_min acc (node_y d - nodeHeight d / 2)) categoryNodes None;
          maxY = fold (\<lambda>d acc. math_max acc (node_y d + nodeHeight d / 2)) categoryNodes None
      in case (minX, maxX, minY, maxY) of
           (Some x0, Some x1, Some y0, Some y1) \<Rightarrow>
             Some \<lparr> rect_x = x0 - padding, rect_y = y0 - padding,
                    rect_width = x1 - x0 + 2 * padding, rect_height = y1 - y0 + 2 * padding \<rparr>
         | _ \<Rightarrow> None)"

text \<open>
  \<open>categoryGroups\<close> is a plain object used as a dictionary from category to the nodes
  pushed under it. It is modelled by the list of its own properties in the order of their
  creation. The nodes are shared with the array \<open>nodes\<close>, so a group holds their indices in
  \<open>nodes\<close>; every index of a group is below the length of \<open>nodes\<close> and no group is empty
  (\<open>categoryGroups_ok\<close> below), so \<open>nodes ! i\<close> and \<open>js ! 0\<close> are always in range.
\<close>

type_synonym groups = "(string \<times> nat list) list"

text \<open>
  The properties that a plain object inherits from \<open>Object.prototype\<close> in a browser. For
  such a name \<open>categoryGroups[category]\<close> is an inherited function or object, which is
  truthy and has no \<open>push\<close>: line 351 throws a \<open>TypeError\<close>.
\<close>

definition prototype_members :: "string list" where
  "prototype_members =
     [''constructor'', ''__defineGetter__'', ''__defineSetter__'', ''hasOwnProperty'',
      ''__lookupGetter__'', ''__lookupSetter__'', ''isPrototypeOf'', ''propertyIsEnumerable'',
      ''toString'', ''valueOf'', ''__proto__'', ''toLocaleString'']"

fun push_group :: "string \<Rightarrow> nat \<Rightarrow> groups \<Rightarrow> groups" where
  "push_group c i [] = [(c, [i])]"
| "push_group c i ((k, js) # g) =
     (if k = c then (k, js @ [i]) # g else (k, js) # push_group c i g)"

text \<open>The callback of lines 345 to 353 for the node at index \<open>i\<close>.\<close>

definition group_step :: "layout_node list \<Rightarrow> nat \<Rightarrow> groups \<Rightarrow> error + groups" where
  "group_step nodes i g =
     (if truthy (inheritedCategory (nodes ! i))
      then (case inheritedCategory (nodes ! i) of
              None \<Rightarrow> Inr g
            | Some c \<Rightarrow>
                if c \<in> set prototype_members then Inl TypeError else Inr (push_group c i g))
      else Inr g)"

fun group_loop :: "layout_node list \<Rightarrow> nat list \<Rightarrow> groups \<Rightarrow> error + groups" where
  "group_loop nodes [] g = Inr g"
| "group_loop nodes (i # rest) g =
     (case group_step nodes i g of Inl e \<Rightarrow> Inl e | Inr g' \<Rightarrow> group_loop nodes rest g')"

definition categoryGroups :: "layout_node list \<Rightarrow> error + groups" where
  "categoryGroups nodes = group_loop nodes [0..<length nodes] []"

text \<open>
  The order in which \<open>Object.keys\<close>, \<open>Object.values\<close> and \<open>Object.entries\<close> list the own
  properties of a plain object: first the keys that are array indices (the decimal
  numerals of the integers from 0 to \<open>2^32 - 2\<close>, without sign or leading zero) in ascending
  numeric order, then all other keys in the order of their creation.
\<close>

definition is_digit :: "char \<Rightarrow> bool" where
  "is_digit c = (c \<in> set ''0123456789'')"

definition decimal :: "string \<Rightarrow> nat" where
  "decimal s = fold (\<lambda>c n. 10 * n + (of_char c - 48)) s 0"

definition array_index :: "string \<Rightarrow> nat option" where
  "array_index s =
     (if s \<noteq> [] \<and> list_all is_digit s \<and> (s = ''0'' \<or> hd s \<noteq> CHR ''0'')
         \<and> decimal s \<le> 4294967294
      then Some (decimal s) else None)"

definition index_value :: "string \<Rightarrow> nat" where
  "index_value k = (case array_index k of None \<Rightarrow> 0 | Some n \<Rightarrow> n)"

definition own_property_order :: "(string \<times> 'a) list \<Rightarrow> (string \<times> 'a) list" where
  "own_property_order g =
     sort_key (\<lambda>e. index_value (fst e)) (filter (\<lambda>e. array_index (fst e) \<noteq> None) g)
     @ filter (\<lambda>e. array_index (fst e) = None) g"

record cat_data =
  cat_name :: string
  avgY :: real
  cat_nodes :: "nat list"
  cat_side :: side_t

text \<open>
  Lines 385 to 398, for the object \<open>g\<close> that the grouping built:
  \<open>Object.keys(categoryGroups).map(...)\<close>.
\<close>

definition categoryData :: "layout_node list \<Rightarrow> groups \<Rightarrow> cat_data list" where
  "categoryData nodes g =
     map (\<lambda>(c, js).
            \<lparr> cat_name = c,
              avgY = fold (\<lambda>i sum. sum + node_y (nodes ! i)) js 0 / real (length js),
              cat_nodes = js,
              cat_side = getNodeSide (nodes ! (js ! 0)) \<rparr>)
         (own_property_order g)"

text \<open>
  The categories of one side, sorted by \<open>avgY\<close>. \<open>Array.prototype.sort\<close> is stable, as is
  \<open>sort_key\<close>.
\<close>

definition side_categories :: "side_t \<Rightarrow> layout_node list \<Rightarrow> groups \<Rightarrow> cat_data list" where
  "side_categories sd nodes g =
     sort_key avgY (filter (\<lambda>c. cat_side c = sd) (categoryData nodes g))"

definition shift_nodes :: "nat list \<Rightarrow> real \<Rightarrow> layout_node list \<Rightarrow> layout_node list" where
  "shift_nodes js off nodes =
     fold (\<lambda>i ns. ns[i := (ns ! i)\<lparr> node_y := node_y (ns ! i) + off \<rparr>]) js nodes"

type_synonym category_bounds = "(string \<times> bounds) list"

text \<open>
  The sweep over the categories of one side. \<open>prev\<close> is the category at \<open>index - 1\<close>
  (\<open>None\<close> at index 0) and \<open>off\<close> the cumulative offset. The state is the array of nodes and
  the dictionary \<open>categoryBounds\<close>. The result is \<open>None\<close> where the source would read a
  field of \<open>undefined\<close> or compute with an infinite rectangle.
\<close>

fun sweep ::
  "cat_data list \<Rightarrow> cat_data option \<Rightarrow> real \<Rightarrow> layout_node list \<times> category_bounds
     \<Rightarrow> (layout_node list \<times> category_bounds) option" where
  "sweep [] prev off st = Some st"
| "sweep (catData # rest) prev off (nodes, cb) =
     (case calculateCategoryBounds (map ((!) nodes) (cat_nodes catData)) categoryPadding of
        None \<Rightarrow> None
      | Some bounds0 \<Rightarrow>
         (case (case prev of
                  None \<Rightarrow> Some off
                | Some p \<Rightarrow>
                   (case map_of cb (cat_name p) of
                      None \<Rightarrow> None
                    | Some prevBounds \<Rightarrow>
                       let prevBottom = rect_y prevBounds + rect_height prevBounds;
                           currentTop = rect_y bounds0 + off
                       in if currentTop < prevBottom + categorySpacing
                          then Some (off + (prevBottom + categorySpacing - currentTop))
                          else Some off)) of
            None \<Rightarrow> None
          | Some off' \<Rightarrow>
             if off' \<noteq> 0 then
               (let nodes' = shift_nodes (cat_nodes catData) off' nodes in
                case calculateCategoryBounds (map ((!) nodes') (cat_nodes catData))
                       categoryPadding of
                  None \<Rightarrow> None
                | Some bounds1 \<Rightarrow>
                    sweep rest (Some catData) off'
                      (nodes', AList.update (cat_name catData) bounds1 cb))
             else sweep rest (Some catData) off'
                    (nodes, AList.update (cat_name catData) bounds0 cb)))"

text \<open>
  Lines 343 to 472: grouping, then the left sweep, then the right sweep. The result is
  \<open>None\<close> where the source throws (the \<open>TypeError\<close> of the grouping) and where the sweep
  gives \<open>None\<close>.
\<close>

definition aggregate :: "layout_node list \<Rightarrow> (layout_node list \<times> category_bounds) option" where
  "aggregate nodes =
     (case categoryGroups nodes of
        Inl e \<Rightarrow> None
      | Inr g \<Rightarrow>
         (case sweep (side_categories SideLeft nodes g) None 0 (nodes, []) of
            None \<Rightarrow> None
          | Some st \<Rightarrow> sweep (side_categories SideRight nodes g) None 0 st))"

section \<open>Root centering pass\<close>

text \<open>\<open>Math.min(...vs)\<close> and \<open>Math.max(...vs)\<close>; \<open>None\<close> is the infinite result on no argument.\<close>

definition min_of :: "real list \<Rightarrow> real option" where
  "min_of vs = fold (\<lambda>v acc. math_min acc v) vs None"

definition max_of :: "real list \<Rightarrow> real option" where
  "max_of vs = fold (\<lambda>v acc. math_max acc v) vs None"

text \<open>
  Lines 474 to 496. The root, \<open>root_node\<close>, is the first of \<open>nodes\<close>; the state is returned unchanged when
  there is no category.
\<close>

definition center_root ::
  "layout_node list \<times> category_bounds \<Rightarrow> layout_node list \<times> category_bounds" where
  "center_root st =
     (case st of (nodes, cb) \<Rightarrow>
        (case nodes of
           [] \<Rightarrow> st
         | root_node # _ \<Rightarrow>
            if length cb > 0 then
              (let allCategoryNodes = map snd cb in
               case (min_of (map rect_y allCategoryNodes),
                     max_of (map (\<lambda>b. rect_y b + rect_height b) allCategoryNodes)) of
                 (Some minCategoryY, Some maxCategoryY) \<Rightarrow>
                   let categoriesVerticalCenter = (minCategoryY + maxCategoryY) / 2;
                       rootYOffset = categoriesVerticalCenter - node_y root_node
                   in (map (\<lambda>d. d\<lparr> node_y := node_y d + rootYOffset \<rparr>) nodes,
                       map (\<lambda>(n, b). (n, b\<lparr> rect_y := rect_y b + rootYOffset \<rparr>)) cb)
               | _ \<Rightarrow> st)
            else st))"

text \<open>The midpoint of the vertical union of the rectangles of a dictionary.\<close>

definition union_midpoint :: "category_bounds \<Rightarrow> real option" where
  "union_midpoint cb =
     (case (min_of (map (rect_y \<circ> snd) cb),
            max_of (map (\<lambda>e. rect_y (snd e) + rect_height (snd e)) cb)) of
        (Some lo, Some hi) \<Rightarrow> Some ((lo + hi) / 2)
      | _ \<Rightarrow> None)"

section \<open>Viewport fitter\<close>

text \<open>\<open>d3.extent\<close>: the least and the greatest value, \<open>None\<close> on an empty array.\<close>

definition extent :: "real list \<Rightarrow> (real \<times> real) option" where
  "extent vs = (case (min_of vs, max_of vs) of (Some lo, Some hi) \<Rightarrow> Some (lo, hi) | _ \<Rightarrow> None)"

text \<open>
  A division whose result is a finite number: \<open>None\<close> on a zero divisor, where JavaScript
  gives an infinity or \<open>NaN\<close>.
\<close>

definition js_div :: "real \<Rightarrow> real \<Rightarrow> real option" where
  "js_div a b = (if b = 0 then None else Some (a / b))"

definition viewport_padding :: real where "viewport_padding = 100"

definition treeWidth :: "layout_node list \<Rightarrow> real option" where
  "treeWidth nodes =
     (case extent (map node_x nodes) of
        None \<Rightarrow> None
      | Some (lo, hi) \<Rightarrow> Some (hi - lo + viewport_padding * 2))"

definition treeHeight :: "layout_node list \<Rightarrow> real option" where
  "treeHeight nodes =
     (case extent (map node_y nodes) of
        None \<Rightarrow> None
      | Some (lo, hi) \<Rightarrow> Some (hi - lo + viewport_padding * 2))"

text \<open>Lines 508 to 511, for a viewport of the given width and height.\<close>

definition fit_scale :: "real \<Rightarrow> real \<Rightarrow> layout_node list \<Rightarrow> real option" where
  "fit_scale width height nodes =
     (case (treeWidth nodes, treeHeight nodes) of
        (Some tw, Some th) \<Rightarrow>
          (case (js_div width tw, js_div height th) of
             (Some rw, Some rh) \<Rightarrow> Some (min 1 (min rw rh * 0.9))
           | _ \<Rightarrow> None)
      | _ \<Rightarrow> None)"

text \<open>
  Lines 498 to 526: the scale, the offsets that centre the extent in the scaled viewport,
  and the translation of every node and rectangle. The result carries the scale.
\<close>

definition fit_viewport ::
  "real \<Rightarrow> real \<Rightarrow> layout_node list \<times> category_bounds
     \<Rightarrow> (real \<times> layout_node list \<times> category_bounds) option" where
  "fit_viewport width height st =
     (case st of (nodes, cb) \<Rightarrow>
        (case (extent (map node_x nodes), extent (map node_y nodes),
               fit_scale width height nodes) of
           (Some (x0, x1), Some (y0, y1), Some scale) \<Rightarrow>
             (case (js_div width scale, js_div height scale) of
                (Some ws, Some hs) \<Rightarrow>
                  let xOffset = (ws - (x1 - x0)) / 2 - x0;
                      yOffset = (hs - (y1 - y0)) / 2 - y0
                  in Some (scale,
                           map (\<lambda>d. d\<lparr> node_x := node_x d + xOffset,
                                        node_y := node_y d + yOffset \<rparr>) nodes,
                           map (\<lambda>(n, b). (n, b\<lparr> rect_x := rect_x b + xOffset,
                                                 rect_y := rect_y b + yOffset \<rparr>)) cb)
              | _ \<Rightarrow> None)
         | _ \<Rightarrow> None))"

section \<open>Notions used by the properties, and example inputs\<close>

text \<open>An item has a name when it is a record whose \<open>name\<close> is truthy.\<close>

definition has_name :: "raw_item \<Rightarrow> bool" where
  "has_name it = (case it of RawNull \<Rightarrow> False | RawItem f its \<Rightarrow> truthy (item_name f))"




definition no_fields :: item_fields where
  "no_fields = \<lparr> item_name = None, item_status = None, item_link = None, item_links = None,
                  item_category = None, item_side = None, item_visibility = None \<rparr>"




text \<open>\<open>{name: "docs", link: "https://a.example", links: "https://b.example"}\<close>.\<close>

definition both_links_fields :: item_fields where
  "both_links_fields =
     no_fields\<lparr> item_name := Some ''docs'', item_link := Some ''https://a.example'',
                item_links := Some ''https://b.example'' \<rparr>"






fun all_nodes :: "(layout_node \<Rightarrow> bool) \<Rightarrow> lnode \<Rightarrow> bool" where
  "all_nodes P (LNode d cs) = (P d \<and> list_all (all_nodes P) cs)"

text \<open>Every node of a tree together with the subtree below it, the root first.\<close>

fun subtrees :: "lnode \<Rightarrow> lnode list" where
  "subtrees (LNode d cs) = LNode d cs # concat (map subtrees cs)"

definition plain :: "string \<Rightarrow> node_fields" where
  "plain n = \<lparr> name = n, status = None, link = None, category = None, side = None,
               visibility = None \<rparr>"


text \<open>A root with one leaf whose name wraps into six lines under the default settings.\<close>

definition wordy_tree :: node where
  "wordy_tree =
     Node (plain ''roadmap'')
       (Some [Node (plain ''memory safety review before public release'') None])"

definition wordy_sized :: lnode where
  "wordy_sized = sizing defaultConfig (hierarchy_from 0 wordy_tree)"

text \<open>
  A node as the tree layout leaves it: \<open>cross\<close> and \<open>along\<close> are the \<open>d.x\<close> and \<open>d.y\<close> that
  \<open>d3.tree\<close> assigned (sibling axis and depth axis), \<open>sd\<close> the inherited side.
\<close>

definition placed :: "string \<Rightarrow> nat \<Rightarrow> real \<Rightarrow> real \<Rightarrow> string option \<Rightarrow> layout_node" where
  "placed n k cross along sd =
     (fresh (plain n) k)\<lparr> node_x := cross, node_y := along, inheritedSide := sd \<rparr>"

text \<open>
  \<open>{name: "root", items: [{name: "a"}, {name: "b"}, {name: "c"}]}\<close> after the tree layout
  with the default spacing: the root at the origin, the leaves 100 apart at depth 1000.
\<close>

definition three_leaves :: "string option \<Rightarrow> lnode" where
  "three_leaves sd =
     LNode (placed ''root'' 0 0 0 sd)
       [LNode (placed ''a'' 1 (- 100) 1000 sd) [],
        LNode (placed ''b'' 1 0 1000 sd) [],
        LNode (placed ''c'' 1 100 1000 sd) []]"



definition xy :: "lnode \<Rightarrow> real \<times> real" where
  "xy t = (node_x (lfields t), node_y (lfields t))"

text \<open>The three passes on one node that precede clustering.\<close>

definition prepare :: "layout_node \<Rightarrow> layout_node" where
  "prepare d = invert_side (store_originalX (swap_xy d))"

text \<open>The same node with the opposite effective side, and the tree with every node so.\<close>

definition flip_side :: "layout_node \<Rightarrow> layout_node" where
  "flip_side d =
     d\<lparr> inheritedSide := Some (if getNodeSide d = SideLeft then ''right'' else ''left'') \<rparr>"



text \<open>Rectangle \<open>b\<close> starts at or below the bottom edge of rectangle \<open>a\<close>.\<close>

definition below :: "bounds \<Rightarrow> bounds \<Rightarrow> bool" where
  "below a b = (rect_y a + rect_height a \<le> rect_y b)"




text \<open>
  The extent of the node centres on each axis: the distance from the least to the
  greatest coordinate.
\<close>

definition x_extent :: "layout_node list \<Rightarrow> real" where
  "x_extent nodes = Max (node_x ` set nodes) - Min (node_x ` set nodes)"

definition y_extent :: "layout_node list \<Rightarrow> real" where
  "y_extent nodes = Max (node_y ` set nodes) - Min (node_y ` set nodes)"

text \<open>A tree of one node, before any pass.\<close>

definition single_root :: lnode where
  "single_root = LNode (fresh (plain ''root'') 0) []"


text \<open>A laid-out node with its size and inherited category.\<close>

definition sized ::
  "string \<Rightarrow> nat \<Rightarrow> real \<Rightarrow> real \<Rightarrow> real \<Rightarrow> real \<Rightarrow> string option \<Rightarrow> layout_node" where
  "sized n k cross along w h cat =
     (fresh (plain n) k)\<lparr> node_x := cross, node_y := along, depthScale := 0.85 ^ k,
                          nodeWidth := w, nodeHeight := h, inheritedCategory := cat \<rparr>"

text \<open>
  \<open>{name: "root", items: [{name: "a", category: "A"}, {name: "b"}]}\<close> after sizing with
  the default settings, inheritance and the tree layout.
\<close>

definition centering_example :: lnode where
  "centering_example =
     LNode (sized ''root'' 0 0 0 480 480 None)
       [LNode (sized ''a'' 1 (- 50) 1000 408 111.35 (Some ''A'')) [],
        LNode (sized ''b'' 1 50 1000 408 111.35 None) []]"



section \<open>Properties of the normalizer\<close>


lemma createHierarchy_named: "has_name it \<Longrightarrow> \<exists>n. snd (createHierarchy it) = Some n"
  by (cases it) (auto simp: has_name_def truthy_def Let_def split: option.splits)
















text \<open>
  C8, as the code has it: the \<open>links\<close> field comes first. The link of a normalized node is
  the \<open>links\<close> value when that is present, otherwise the \<open>link\<close> value when that is present,
  otherwise \<open>null\<close>; \<open>link\<close> is the fallback.
\<close>

theorem link_is_fallback_of_links:
  "truthy (item_name f) \<Longrightarrow>
     \<exists>n. snd (createHierarchy (RawItem f its)) = Some n
       \<and> link (node_data n)
           = (if truthy (item_links f) then item_links f
              else if truthy (item_link f) then item_link f else None)"
  by (auto simp: truthy_def js_or_def Let_def split: option.splits)

theorem link_is_fallback_of_links_witness:
  "\<exists>n. snd (createHierarchy (RawItem both_links_fields None)) = Some n
       \<and> link (node_data n) = Some ''https://b.example''"
proof -
  have t: "truthy (item_name both_links_fields)"
    by (simp add: both_links_fields_def no_fields_def truthy_def)
  from link_is_fallback_of_links[OF t, of None] show ?thesis
    by (simp add: both_links_fields_def no_fields_def truthy_def)
qed

text \<open>
  C8 as claimed fails: the item carries \<open>link: "https://a.example"\<close> and a \<open>links\<close> field,
  and the normalized node's link is the \<open>links\<close> value, not the \<open>link\<close> value.
\<close>

theorem link_wins_counterexample:
  "item_link both_links_fields = Some ''https://a.example''
   \<and> map_option (\<lambda>n. link (node_data n)) (snd (createHierarchy (RawItem both_links_fields None)))
       = Some (Some ''https://b.example'')
   \<and> map_option (\<lambda>n. link (node_data n)) (snd (createHierarchy (RawItem both_links_fields None)))
       \<noteq> Some (item_link both_links_fields)"
  by (simp add: both_links_fields_def no_fields_def truthy_def js_or_def List.map_filter_def)

text \<open>
  C10. The empty array root \<open>[]\<close> normalizes, without any warning, to the synthetic root
  named \<open>Root\<close> with an empty array of children; \<open>d3.hierarchy\<close> accepts it and yields a
  single node.
\<close>

theorem empty_array_root_is_synthetic_root:
  "transformData (RootArray []) = ([], Some (Node synthetic_root (Some [])))
   \<and> name synthetic_root = ''Root''
   \<and> hierarchy (snd (transformData (RootArray []))) = Inr (LNode (fresh synthetic_root 0) [])"
  by (simp add: transformData_def List.map_filter_def synthetic_root_def hierarchy_def)

section \<open>Properties of the traversal\<close>

lemma levels_all_nodes: "list_all (all_nodes P) ts \<Longrightarrow> \<forall>n \<in> set (levels ts). P n"
proof (induction ts rule: levels.induct)
  case 1
  then show ?case by simp
next
  case (2 t ts)
  have here: "\<forall>u \<in> set (t # ts). P (lfields u)"
  proof
    fix u assume "u \<in> set (t # ts)"
    with 2(2) have "all_nodes P u" by (auto simp: list_all_iff)
    then show "P (lfields u)" by (cases u) simp
  qed
  have below: "list_all (all_nodes P) (concat (map children (t # ts)))"
    unfolding list_all_iff
  proof
    fix c assume "c \<in> set (concat (map children (t # ts)))"
    then obtain u where u: "u \<in> set (t # ts)" "c \<in> set (children u)" by auto
    with 2(2) have "all_nodes P u" by (auto simp: list_all_iff)
    with u(2) show "all_nodes P c" by (cases u) (auto simp: list_all_iff)
  qed
  from 2(1)[OF below] here show ?case by auto
qed

lemma descendants_all_nodes: "all_nodes P t \<Longrightarrow> \<forall>n \<in> set (descendants t). P n"
  unfolding descendants_def by (rule levels_all_nodes) simp

lemma descendants_not_empty: "descendants t \<noteq> []"
  by (simp add: descendants_def)

lemma hd_descendants: "hd (descendants t) = lfields t"
  by (simp add: descendants_def)

section \<open>Properties of the sizing pass\<close>

lemma depth_set_size [simp]: "depth (set_size s b d) = depth d"
  by (simp add: set_size_def Let_def)

lemma width_set_size:
  "nodeWidth (set_size s b d) = LEAF_WIDTH * nodeScale s * 0.85 ^ depth d"
  by (simp add: set_size_def Let_def LEAF_WIDTH_def NODE_SIZE_def)

lemma height_set_size:
  assumes "0 < nodeScale s"
  shows "LEAF_HEIGHT * nodeScale s * 0.85 ^ depth d \<le> nodeHeight (set_size s b d)"
proof (cases b)
  case True
  then show ?thesis by (simp add: set_size_def Let_def)
next
  case False
  have "0 \<le> nodeScale s * 0.85 ^ depth d" using assms by simp
  then have "100 * (nodeScale s * 0.85 ^ depth d) \<le> 400 * (nodeScale s * 0.85 ^ depth d)"
    by (rule mult_right_mono[rotated]) simp
  with False show ?thesis
    by (simp add: set_size_def Let_def LEAF_HEIGHT_def NODE_SIZE_def mult.assoc)
qed

lemma sizing_all_nodes:
  assumes "0 < nodeScale s"
  shows "all_nodes (\<lambda>n. nodeWidth n = LEAF_WIDTH * nodeScale s * 0.85 ^ depth n
                      \<and> LEAF_HEIGHT * nodeScale s * 0.85 ^ depth n \<le> nodeHeight n)
           (sizing s t)"
proof (induction t)
  case (LNode d cs)
  have w: "nodeWidth (set_size s (cs = []) d) = LEAF_WIDTH * nodeScale s * 0.85 ^ depth d"
    by (rule width_set_size)
  have h: "LEAF_HEIGHT * nodeScale s * 0.85 ^ depth d \<le> nodeHeight (set_size s (cs = []) d)"
    by (rule height_set_size[OF assms])
  from LNode w h show ?case
    by (simp add: list_all_iff)
qed

lemma subtrees_unfold: "subtrees t = t # concat (map subtrees (children t))"
  by (cases t) simp

lemma set_levels_subtrees:
  "set (levels ts) = lfields ` (\<Union>t \<in> set ts. set (subtrees t))"
proof (induction ts rule: levels.induct)
  case 1
  then show ?case by simp
next
  case (2 t ts)
  have split: "(\<Union>u \<in> set (t # ts). set (subtrees u))
                 = set (t # ts) \<union> (\<Union>c \<in> set (concat (map children (t # ts))). set (subtrees c))"
  proof -
    have step: "set (subtrees u) = {u} \<union> (\<Union>c \<in> set (children u). set (subtrees c))" for u
      by (subst subtrees_unfold) simp
    have "(\<Union>u \<in> set (t # ts). set (subtrees u))
                 = (\<Union>u \<in> set (t # ts). {u} \<union> (\<Union>c \<in> set (children u). set (subtrees c)))"
      by (rule SUP_cong[OF refl]) (rule step)
    also have "\<dots> = set (t # ts)
                 \<union> (\<Union>c \<in> set (concat (map children (t # ts))). set (subtrees c))"
      by auto
    finally show ?thesis .
  qed
  have "set (levels (t # ts))
          = lfields ` set (t # ts) \<union> set (levels (concat (map children (t # ts))))"
    by simp
  also have "\<dots> = lfields ` set (t # ts)
          \<union> lfields ` (\<Union>c \<in> set (concat (map children (t # ts))). set (subtrees c))"
    by (simp only: 2)
  also have "\<dots> = lfields ` (\<Union>u \<in> set (t # ts). set (subtrees u))"
    by (simp only: split image_Un)
  finally show ?case .
qed

lemma set_descendants_subtrees: "set (descendants t) = lfields ` set (subtrees t)"
proof -
  have "set (levels [t]) = lfields ` (\<Union>u \<in> set [t]. set (subtrees u))"
    by (rule set_levels_subtrees)
  then show ?thesis by (simp add: descendants_def del: levels.simps)
qed

lemma subtrees_sizing:
  "u \<in> set (subtrees (sizing s t)) \<Longrightarrow>
     \<exists>d cs. u = LNode (set_size s (cs = []) d) (map (sizing s) cs)"
proof (induction t)
  case (LNode d cs)
  from LNode.prems consider "u = LNode (set_size s (cs = []) d) (map (sizing s) cs)"
    | c where "c \<in> set cs" "u \<in> set (subtrees (sizing s c))"
    by auto
  then show ?case
  proof cases
    case 1
    then show ?thesis by blast
  next
    case 2
    then show ?thesis by (rule LNode.IH)
  qed
qed

lemma inner_height:
  assumes "u \<in> set (subtrees (sizing s t))" and "\<not> is_leaf u"
  shows "nodeHeight (lfields u) = 2 * NODE_SIZE * nodeScale s * 0.85 ^ depth (lfields u)"
proof -
  from subtrees_sizing[OF assms(1)] obtain d cs where
    u: "u = LNode (set_size s (cs = []) d) (map (sizing s) cs)" by blast
  with assms(2) have "cs \<noteq> []" by (simp add: is_leaf_def)
  with u show ?thesis by (simp add: set_size_def Let_def)
qed

text \<open>
  C5, as the code has it: for a positive \<open>nodeScale\<close>, every node's width is
  \<open>400 * nodeScale * 0.85 ^ depth\<close>, so it is strictly positive and never grows with depth;
  every node's height is strictly positive and at least the floor
  \<open>100 * nodeScale * 0.85 ^ depth\<close>; the height of a node that has children is
  \<open>400 * nodeScale * 0.85 ^ depth\<close>, so among the nodes that have children the height never
  grows with depth either. Nothing is said about the height of a leaf against the depth.
\<close>

theorem sizes_positive_width_decays:
  assumes "0 < nodeScale s"
  shows "(\<forall>n \<in> set (descendants (sizing s t)).
            nodeWidth n = LEAF_WIDTH * nodeScale s * 0.85 ^ depth n \<and> 0 < nodeWidth n
            \<and> LEAF_HEIGHT * nodeScale s * 0.85 ^ depth n \<le> nodeHeight n \<and> 0 < nodeHeight n)
       \<and> (\<forall>n \<in> set (descendants (sizing s t)). \<forall>m \<in> set (descendants (sizing s t)).
            depth n \<le> depth m \<longrightarrow> nodeWidth m \<le> nodeWidth n)
       \<and> set (descendants (sizing s t)) = lfields ` set (subtrees (sizing s t))
       \<and> (\<forall>u \<in> set (subtrees (sizing s t)). \<not> is_leaf u \<longrightarrow>
            nodeHeight (lfields u) = 2 * NODE_SIZE * nodeScale s * 0.85 ^ depth (lfields u))
       \<and> (\<forall>u \<in> set (subtrees (sizing s t)). \<forall>v \<in> set (subtrees (sizing s t)).
            \<not> is_leaf u \<and> \<not> is_leaf v \<and> depth (lfields u) \<le> depth (lfields v) \<longrightarrow>
            nodeHeight (lfields v) \<le> nodeHeight (lfields u))"
proof -
  let ?N = "set (descendants (sizing s t))"
  let ?T = "set (subtrees (sizing s t))"
  have base: "\<forall>n \<in> ?N. nodeWidth n = LEAF_WIDTH * nodeScale s * 0.85 ^ depth n
                \<and> LEAF_HEIGHT * nodeScale s * 0.85 ^ depth n \<le> nodeHeight n"
    by (rule descendants_all_nodes) (rule sizing_all_nodes[OF assms])
  have pos: "0 < c * nodeScale s * 0.85 ^ k" if "0 < c" for c :: real and k :: nat
    using assms that by simp
  have decay: "c * nodeScale s * 0.85 ^ j \<le> c * nodeScale s * 0.85 ^ k"
    if "0 < c" and "k \<le> j" for c :: real and k j :: nat
  proof -
    have "(0.85::real) ^ j \<le> 0.85 ^ k"
      by (rule power_decreasing[OF that(2)]) simp_all
    moreover have "0 \<le> c * nodeScale s"
      using assms that(1) by simp
    ultimately show ?thesis by (rule mult_left_mono)
  qed
  have first: "\<forall>n \<in> ?N. nodeWidth n = LEAF_WIDTH * nodeScale s * 0.85 ^ depth n
                 \<and> 0 < nodeWidth n
                 \<and> LEAF_HEIGHT * nodeScale s * 0.85 ^ depth n \<le> nodeHeight n
                 \<and> 0 < nodeHeight n"
  proof
    fix n assume n: "n \<in> ?N"
    from base n have w: "nodeWidth n = LEAF_WIDTH * nodeScale s * 0.85 ^ depth n"
      and h: "LEAF_HEIGHT * nodeScale s * 0.85 ^ depth n \<le> nodeHeight n" by auto
    have "0 < LEAF_WIDTH * nodeScale s * 0.85 ^ depth n"
      by (rule pos) (simp add: LEAF_WIDTH_def)
    moreover have "0 < LEAF_HEIGHT * nodeScale s * 0.85 ^ depth n"
      by (rule pos) (simp add: LEAF_HEIGHT_def)
    ultimately show "nodeWidth n = LEAF_WIDTH * nodeScale s * 0.85 ^ depth n
                 \<and> 0 < nodeWidth n
                 \<and> LEAF_HEIGHT * nodeScale s * 0.85 ^ depth n \<le> nodeHeight n
                 \<and> 0 < nodeHeight n"
      using w h by simp
  qed
  have second: "\<forall>n \<in> ?N. \<forall>m \<in> ?N. depth n \<le> depth m \<longrightarrow> nodeWidth m \<le> nodeWidth n"
  proof (intro ballI impI)
    fix n m assume n: "n \<in> ?N" and m: "m \<in> ?N" and le: "depth n \<le> depth m"
    have "LEAF_WIDTH * nodeScale s * 0.85 ^ depth m
            \<le> LEAF_WIDTH * nodeScale s * 0.85 ^ depth n"
      by (rule decay[OF _ le]) (simp add: LEAF_WIDTH_def)
    with base n m show "nodeWidth m \<le> nodeWidth n" by simp
  qed
  have third: "?N = lfields ` ?T"
    by (rule set_descendants_subtrees)
  have fourth: "\<forall>u \<in> ?T. \<not> is_leaf u \<longrightarrow>
            nodeHeight (lfields u) = 2 * NODE_SIZE * nodeScale s * 0.85 ^ depth (lfields u)"
  proof (intro ballI impI)
    fix u assume "u \<in> ?T" "\<not> is_leaf u"
    then show "nodeHeight (lfields u) = 2 * NODE_SIZE * nodeScale s * 0.85 ^ depth (lfields u)"
      by (rule inner_height)
  qed
  have fifth: "\<forall>u \<in> ?T. \<forall>v \<in> ?T.
            \<not> is_leaf u \<and> \<not> is_leaf v \<and> depth (lfields u) \<le> depth (lfields v) \<longrightarrow>
            nodeHeight (lfields v) \<le> nodeHeight (lfields u)"
  proof (intro ballI impI)
    fix u v assume u: "u \<in> ?T" and v: "v \<in> ?T"
      and c: "\<not> is_leaf u \<and> \<not> is_leaf v \<and> depth (lfields u) \<le> depth (lfields v)"
    from c have le: "depth (lfields u) \<le> depth (lfields v)"
      and nu: "\<not> is_leaf u" and nv: "\<not> is_leaf v" by simp_all
    have "2 * NODE_SIZE * nodeScale s * 0.85 ^ depth (lfields v)
            \<le> 2 * NODE_SIZE * nodeScale s * 0.85 ^ depth (lfields u)"
      by (rule decay[OF _ le]) (simp add: NODE_SIZE_def)
    then show "nodeHeight (lfields v) \<le> nodeHeight (lfields u)"
      by (simp only: inner_height[OF u nu] inner_height[OF v nv])
  qed
  show ?thesis
    using first second third fourth fifth by (simp only: simp_thms)
qed

lemma wordy_sized_value:
  "wordy_sized =
     LNode ((fresh (plain ''roadmap'') 0)\<lparr> depthScale := 1, nodeWidth := 480, nodeHeight := 480 \<rparr>)
       [LNode ((fresh (plain ''memory safety review before public release'') 1)
                 \<lparr> depthScale := 0.85, nodeWidth := 408, nodeHeight := 498.1 \<rparr>) []]"
  by (simp add: wordy_sized_def wordy_tree_def plain_def defaultConfig_def set_size_def
      wrapText_def split_ws_def is_ws_def fresh_def Let_def TEXT_FONT_SIZE_def
      TEXT_LINE_HEIGHT_def LEAF_WIDTH_def LEAF_HEIGHT_def NODE_SIZE_def)

theorem sizes_positive_width_decays_witness:
  "0 < nodeScale defaultConfig
   \<and> lfields wordy_sized \<in> set (descendants wordy_sized)
   \<and> 0 < nodeWidth (lfields wordy_sized) \<and> 0 < nodeHeight (lfields wordy_sized)
   \<and> \<not> is_leaf wordy_sized
   \<and> nodeHeight (lfields wordy_sized)
       = 2 * NODE_SIZE * nodeScale defaultConfig * 0.85 ^ depth (lfields wordy_sized)"
proof -
  have p: "0 < nodeScale defaultConfig" by (simp add: defaultConfig_def)
  have m: "lfields wordy_sized \<in> set (descendants wordy_sized)"
    by (cases wordy_sized) (simp add: descendants_def)
  have m2: "wordy_sized \<in> set (subtrees wordy_sized)"
    by (subst subtrees_unfold) simp
  have nl: "\<not> is_leaf wordy_sized"
    by (simp add: wordy_sized_value is_leaf_def)
  note main = sizes_positive_width_decays[OF p, of "hierarchy_from 0 wordy_tree"]
  from main m have a: "0 < nodeWidth (lfields wordy_sized) \<and> 0 < nodeHeight (lfields wordy_sized)"
    unfolding wordy_sized_def by blast
  from main m2 nl have b: "nodeHeight (lfields wordy_sized)
       = 2 * NODE_SIZE * nodeScale defaultConfig * 0.85 ^ depth (lfields wordy_sized)"
    unfolding wordy_sized_def by blast
  from p m a nl b show ?thesis by (simp only: simp_thms)
qed

text \<open>
  C5 as claimed fails for the height: under the default settings the leaf at depth 1 is
  498.1 high while its parent, the root at depth 0, is 480 high.
\<close>

theorem height_not_monotone_counterexample:
  "depth (lfields wordy_sized) < depth (lfields (children wordy_sized ! 0))
   \<and> nodeHeight (lfields wordy_sized) < nodeHeight (lfields (children wordy_sized ! 0))"
  by (simp add: wordy_sized_value fresh_def)

section \<open>Properties of the resolver\<close>





lemma data_resolve_node [simp]: "data (resolve_node ps d) = data d"
  by (simp add: resolve_node_def)






section \<open>Properties of side inversion and leaf clustering\<close>

lemmas layout_eval =
  orient_def placed_def sized_def fresh_def plain_def swap_xy_def store_originalX_def
  invert_side_def getNodeSide_def js_or_def truthy_def is_leaf_def arrange_def grid_child_def
  column_child_def direction_def defaultConfig_def Let_def xy_def enumerate_eq_zip

lemmas aggregate_eval =
  descendants_def aggregate_def side_categories_def categoryData_def categoryGroups_def
  group_step_def prototype_members_def own_property_order_def array_index_def
  index_value_def is_digit_def decimal_def calculateCategoryBounds_def math_min_def math_max_def categoryPadding_def
  categorySpacing_def shift_nodes_def center_root_def min_of_def max_of_def
  union_midpoint_def upt_rec



lemma side_prepare [simp]: "getNodeSide (prepare d) = getNodeSide d"
  by (simp add: prepare_def invert_side_def store_originalX_def swap_xy_def getNodeSide_def)



lemma y_flip [simp]: "node_y (flip_side d) = node_y d"
  by (simp add: flip_side_def)



lemma is_leaf_each [simp]: "is_leaf (each f t) = is_leaf t"
  by (cases t) (simp add: is_leaf_def)

lemma length_arrange [simp]: "length (arrange s d cs) = length cs"
  by (simp add: arrange_def Let_def)

lemma arrange_Nil [simp]: "(arrange s d cs = []) = (cs = [])"
  using length_arrange[of s d cs] by (simp only: length_0_conv[symmetric])

lemma is_leaf_cluster [simp]: "is_leaf (cluster s t) = is_leaf t"
  by (cases t) (simp add: is_leaf_def)

lemma children_arrange: "map children (arrange s d cs) = map children cs"
  by (rule nth_equalityI) (auto simp: arrange_def Let_def nth_enumerate_eq)

lemma leaves_map:
  "(\<And>c. is_leaf (g c) = is_leaf c) \<Longrightarrow> list_all is_leaf (map g cs) = list_all is_leaf cs"
  by (simp add: list_all_iff)

lemma leaves_each [simp]: "list_all is_leaf (map (each f) cs) = list_all is_leaf cs"
  by (rule leaves_map) simp

lemma leaves_arrange [simp]: "list_all is_leaf (arrange s d cs) = list_all is_leaf cs"
proof -
  have "list_all is_leaf xs = list_all (\<lambda>c. c = []) (map children xs)" for xs
    by (simp add: list_all_iff is_leaf_def)
  then show ?thesis by (simp add: children_arrange)
qed




lemma cluster_single_column:
  assumes "0 < length cs" and "length cs \<le> 2" and "list_all is_leaf cs"
  shows "cluster s (LNode d cs)
           = LNode d (map (\<lambda>c. LNode ((lfields c)\<lparr> node_x := node_x d
                                   + nodeSpacingHorizontal s * 0.5 * direction d \<rparr>)
                                 (children c)) cs)"
  using assms by (simp add: arrange_def column_child_def)

text \<open>
  C3. With exactly three leaf children the pass takes the branch \<open>numChildren > 2\<close>: under
  the default settings the three leaves, laid out at cross-axis coordinates -100, 0 and
  100, end in two columns at depth-axis coordinates 350 and 650 and in two rows at
  cross-axis coordinates -120 and 120. A single column would leave them at depth-axis
  coordinate 500 and at their cross-axis coordinates.
\<close>

theorem three_leaves_are_put_in_two_columns:
  "map xy (children (each swap_xy (three_leaves None)))
     = [(1000, - 100), (1000, 0), (1000, 100)]
   \<and> map xy (children (orient defaultConfig (three_leaves None)))
     = [(350, - 120), (650, - 120), (350, 120)]"
  by (simp add: layout_eval three_leaves_def)




section \<open>Properties of the category aggregator\<close>

lemma fold_min_Some:
  "\<exists>lo. fold (\<lambda>d acc. math_min acc (f d)) ns (Some m) = Some lo \<and> lo \<le> m
        \<and> (\<forall>n \<in> set ns. lo \<le> f n)"
proof (induction ns arbitrary: m)
  case Nil
  then show ?case by simp
next
  case (Cons n ns)
  from Cons[of "min m (f n)"] show ?case
    by (auto simp: math_min_def)
qed

lemma fold_max_Some:
  "\<exists>hi. fold (\<lambda>d acc. math_max acc (f d)) ns (Some m) = Some hi \<and> m \<le> hi
        \<and> (\<forall>n \<in> set ns. f n \<le> hi)"
proof (induction ns arbitrary: m)
  case Nil
  then show ?case by simp
next
  case (Cons n ns)
  from Cons[of "max m (f n)"] show ?case
    by (auto simp: math_max_def)
qed

lemma fold_min_None:
  "ns \<noteq> [] \<Longrightarrow> \<exists>lo. fold (\<lambda>d acc. math_min acc (f d)) ns None = Some lo
                       \<and> (\<forall>n \<in> set ns. lo \<le> f n)"
proof (cases ns)
  case Nil
  then show "ns \<noteq> [] \<Longrightarrow> ?thesis" by simp
next
  case (Cons n ms)
  from fold_min_Some[where f=f and ns=ms and m="f n"] Cons show ?thesis
    by (auto simp: math_min_def)
qed

lemma fold_max_None:
  "ns \<noteq> [] \<Longrightarrow> \<exists>hi. fold (\<lambda>d acc. math_max acc (f d)) ns None = Some hi
                       \<and> (\<forall>n \<in> set ns. f n \<le> hi)"
proof (cases ns)
  case Nil
  then show "ns \<noteq> [] \<Longrightarrow> ?thesis" by simp
next
  case (Cons n ms)
  from fold_max_Some[where f=f and ns=ms and m="f n"] Cons show ?thesis
    by (auto simp: math_max_def)
qed

lemma fold_min_shift:
  "fold (\<lambda>d acc. math_min acc (f d + c)) ns (map_option (\<lambda>v. v + c) a)
     = map_option (\<lambda>v. v + c) (fold (\<lambda>d acc. math_min acc (f d)) ns a)"
proof (induction ns arbitrary: a)
  case Nil
  then show ?case by simp
next
  case (Cons n ns)
  have "math_min (map_option (\<lambda>v. v + c) a) (f n + c)
          = map_option (\<lambda>v. v + c) (math_min a (f n))"
    by (cases a) (simp_all add: math_min_def)
  with Cons[of "math_min a (f n)"] show ?case by simp
qed

lemma fold_max_shift:
  "fold (\<lambda>d acc. math_max acc (f d + c)) ns (map_option (\<lambda>v. v + c) a)
     = map_option (\<lambda>v. v + c) (fold (\<lambda>d acc. math_max acc (f d)) ns a)"
proof (induction ns arbitrary: a)
  case Nil
  then show ?case by simp
next
  case (Cons n ns)
  have "math_max (map_option (\<lambda>v. v + c) a) (f n + c)
          = map_option (\<lambda>v. v + c) (math_max a (f n))"
    by (cases a) (simp_all add: math_max_def)
  with Cons[of "math_max a (f n)"] show ?case by simp
qed




lemma length_shift_nodes [simp]: "length (shift_nodes js c nodes) = length nodes"
  unfolding shift_nodes_def by (induction js arbitrary: nodes) simp_all






























text \<open>
  The order of \<open>Object.keys\<close> on an object whose properties were created in the order
  \<open>b\<close>, \<open>10\<close>, \<open>07\<close>, \<open>9\<close>: the array indices 9 and 10 come first.
\<close>

lemma own_property_order_example:
  "map fst (own_property_order [(''b'', a), (''10'', b), (''07'', c), (''9'', d)])
     = [''9'', ''10'', ''b'', ''07'']"
  by (simp add: own_property_order_def array_index_def index_value_def is_digit_def
      decimal_def)

text \<open>
  Two categories named \<open>2\<close> and \<open>1\<close>, met in this order, with the same mean cross-axis
  coordinate: the sweep takes \<open>1\<close> first, as \<open>Object.keys\<close> lists it first and the sort is
  stable.
\<close>

lemma integer_like_categories_example:
  "categoryGroups [sized ''root'' 0 0 0 480 480 None,
                   sized ''a'' 1 500 0 408 100 (Some ''2''),
                   sized ''b'' 1 500 0 408 100 (Some ''1'')]
     = Inr [(''2'', [1]), (''1'', [2])]
   \<and> map cat_name
         (side_categories SideRight
            [sized ''root'' 0 0 0 480 480 None,
             sized ''a'' 1 500 0 408 100 (Some ''2''),
             sized ''b'' 1 500 0 408 100 (Some ''1'')]
            [(''2'', [1]), (''1'', [2])])
     = [''1'', ''2'']"
  by (simp add: layout_eval aggregate_eval)



section \<open>Properties of the root centering pass\<close>

lemma center_root_no_categories: "center_root (nodes, []) = (nodes, [])"
  by (simp add: center_root_def split: list.splits)

lemma min_of_shift: "min_of (map (\<lambda>v. v + c) vs) = map_option (\<lambda>v. v + c) (min_of vs)"
  using fold_min_shift[of "\<lambda>v. v" c vs None] by (simp add: min_of_def fold_map comp_def)

lemma max_of_shift: "max_of (map (\<lambda>v. v + c) vs) = map_option (\<lambda>v. v + c) (max_of vs)"
  using fold_max_shift[of "\<lambda>v. v" c vs None] by (simp add: max_of_def fold_map comp_def)

lemma center_root_is_translation:
  assumes "cb \<noteq> []"
  shows "\<exists>m. union_midpoint cb = Some m
           \<and> node_y (hd (fst (center_root (r # rest, cb)))) = m
           \<and> union_midpoint (snd (center_root (r # rest, cb))) = Some (m + (m - node_y r))"
proof -
  let ?tops = "map (rect_y \<circ> snd) cb" and ?bots = "map (\<lambda>e. rect_y (snd e) + rect_height (snd e)) cb"
  from assms obtain lo where lo: "min_of ?tops = Some lo"
    using fold_min_None[where f="\<lambda>v. v" and ns="?tops"] unfolding min_of_def by auto
  from assms obtain hi where hi: "max_of ?bots = Some hi"
    using fold_max_None[where f="\<lambda>v. v" and ns="?bots"] unfolding max_of_def by auto
  define m where "m = (lo + hi) / 2"
  define c where "c = m - node_y r"
  have mid: "union_midpoint cb = Some m"
    by (simp add: union_midpoint_def lo hi m_def)
  have lo': "min_of (map rect_y (map snd cb)) = Some lo"
    using lo by (simp add: comp_def)
  have hi': "max_of (map (\<lambda>b. rect_y b + rect_height b) (map snd cb)) = Some hi"
    using hi by (simp add: comp_def)
  have res: "center_root (r # rest, cb)
      = (map (\<lambda>d. d\<lparr> node_y := node_y d + c \<rparr>) (r # rest),
         map (\<lambda>(n, b). (n, b\<lparr> rect_y := rect_y b + c \<rparr>)) cb)"
    using assms by (simp add: center_root_def lo' hi' c_def m_def Let_def del: map_map)
  have tops: "map (rect_y \<circ> snd) (map (\<lambda>(n, b). (n, b\<lparr> rect_y := rect_y b + c \<rparr>)) cb)
                = map (\<lambda>v. v + c) ?tops"
    by (simp add: comp_def case_prod_beta)
  have bots: "map (\<lambda>e. rect_y (snd e) + rect_height (snd e))
                (map (\<lambda>(n, b). (n, b\<lparr> rect_y := rect_y b + c \<rparr>)) cb)
                = map (\<lambda>v. v + c) ?bots"
    by (simp add: comp_def case_prod_beta algebra_simps)
  have after: "union_midpoint (map (\<lambda>(n, b). (n, b\<lparr> rect_y := rect_y b + c \<rparr>)) cb)
                 = Some (m + c)"
    unfolding union_midpoint_def tops bots min_of_shift max_of_shift lo hi
    by (simp add: m_def field_simps)
  from mid res after show ?thesis
    by (simp add: c_def)
qed

text \<open>
  C2. On the example the only rectangle spans -255.675 to 155.675 before the pass, so the
  offset is -50: the root moves from 0 to -50 and the rectangle moves with it, to the
  midpoint -100. After the pass the root is not at the midpoint of the rectangles.
\<close>

theorem root_is_not_centered_after_the_pass:
  "map_option (\<lambda>st. node_y (hd (fst st)))
     (aggregate (descendants (orient defaultConfig centering_example))) = Some 0
   \<and> map_option (\<lambda>st. union_midpoint (snd st))
       (aggregate (descendants (orient defaultConfig centering_example))) = Some (Some (- 50))
   \<and> map_option (\<lambda>st. node_y (hd (fst (center_root st))))
       (aggregate (descendants (orient defaultConfig centering_example))) = Some (- 50)
   \<and> map_option (\<lambda>st. union_midpoint (snd (center_root st)))
       (aggregate (descendants (orient defaultConfig centering_example))) = Some (Some (- 100))"
  by (simp add: layout_eval aggregate_eval centering_example_def)

section \<open>Properties of the viewport fitter\<close>

lemma extent_Some:
  assumes "vs \<noteq> []"
  shows "\<exists>lo hi. extent vs = Some (lo, hi) \<and> lo \<le> hi"
proof -
  obtain lo where lo: "min_of vs = Some lo" "\<forall>v \<in> set vs. lo \<le> v"
    using fold_min_None[OF assms, where f="\<lambda>v. v"] unfolding min_of_def by blast
  obtain hi where hi: "max_of vs = Some hi" "\<forall>v \<in> set vs. v \<le> hi"
    using fold_max_None[OF assms, where f="\<lambda>v. v"] unfolding max_of_def by blast
  from assms obtain v where "v \<in> set vs" by (cases vs) auto
  with lo(2) hi(2) have "lo \<le> hi" by fastforce
  with lo(1) hi(1) show ?thesis by (simp add: extent_def)
qed

lemma treeWidth_Some: "nodes \<noteq> [] \<Longrightarrow> \<exists>tw. treeWidth nodes = Some tw \<and> 2 * viewport_padding \<le> tw"
  using extent_Some[of "map node_x nodes"] by (auto simp: treeWidth_def)

lemma treeHeight_Some: "nodes \<noteq> [] \<Longrightarrow> \<exists>th. treeHeight nodes = Some th \<and> 2 * viewport_padding \<le> th"
  using extent_Some[of "map node_y nodes"] by (auto simp: treeHeight_def)


lemma fold_min_attained:
  "\<exists>lo. fold (\<lambda>v acc. math_min acc v) vs (Some m) = Some lo \<and> lo \<in> insert m (set vs)
        \<and> lo \<le> m \<and> (\<forall>v \<in> set vs. lo \<le> v)"
proof (induction vs arbitrary: m)
  case Nil
  then show ?case by simp
next
  case (Cons v vs)
  from Cons[of "min m v"] show ?case
    by (auto simp: math_min_def min_def split: if_splits)
qed

lemma fold_max_attained:
  "\<exists>hi. fold (\<lambda>v acc. math_max acc v) vs (Some m) = Some hi \<and> hi \<in> insert m (set vs)
        \<and> m \<le> hi \<and> (\<forall>v \<in> set vs. v \<le> hi)"
proof (induction vs arbitrary: m)
  case Nil
  then show ?case by simp
next
  case (Cons v vs)
  from Cons[of "max m v"] show ?case
    by (auto simp: math_max_def max_def split: if_splits)
qed

lemma min_of_Min: "vs \<noteq> [] \<Longrightarrow> min_of vs = Some (Min (set vs))"
proof (cases vs)
  case Nil
  then show "vs \<noteq> [] \<Longrightarrow> ?thesis" by simp
next
  case (Cons v ws)
  from fold_min_attained[of ws v] obtain lo where
    lo: "fold (\<lambda>v acc. math_min acc v) ws (Some v) = Some lo" "lo \<in> insert v (set ws)"
        "lo \<le> v" "\<forall>u \<in> set ws. lo \<le> u"
    by blast
  have "Min (set vs) = lo"
    by (rule Min_eqI) (use lo Cons in auto)
  with lo(1) Cons show ?thesis by (simp add: min_of_def math_min_def)
qed

lemma max_of_Max: "vs \<noteq> [] \<Longrightarrow> max_of vs = Some (Max (set vs))"
proof (cases vs)
  case Nil
  then show "vs \<noteq> [] \<Longrightarrow> ?thesis" by simp
next
  case (Cons v ws)
  from fold_max_attained[of ws v] obtain hi where
    hi: "fold (\<lambda>v acc. math_max acc v) ws (Some v) = Some hi" "hi \<in> insert v (set ws)"
        "v \<le> hi" "\<forall>u \<in> set ws. u \<le> hi"
    by blast
  have "Max (set vs) = hi"
    by (rule Max_eqI) (use hi Cons in auto)
  with hi(1) Cons show ?thesis by (simp add: max_of_def math_max_def)
qed

lemma extent_Min_Max: "vs \<noteq> [] \<Longrightarrow> extent vs = Some (Min (set vs), Max (set vs))"
  by (simp add: extent_def min_of_Min max_of_Max)

lemma treeWidth_value:
  "nodes \<noteq> [] \<Longrightarrow> treeWidth nodes = Some (x_extent nodes + 2 * viewport_padding)"
  by (simp add: treeWidth_def extent_Min_Max x_extent_def)

lemma treeHeight_value:
  "nodes \<noteq> [] \<Longrightarrow> treeHeight nodes = Some (y_extent nodes + 2 * viewport_padding)"
  by (simp add: treeHeight_def extent_Min_Max y_extent_def)

lemma x_extent_nonneg: "nodes \<noteq> [] \<Longrightarrow> 0 \<le> x_extent nodes"
proof -
  assume "nodes \<noteq> []"
  then obtain n where n: "n \<in> set nodes" by (cases nodes) auto
  then have "Min (node_x ` set nodes) \<le> node_x n" "node_x n \<le> Max (node_x ` set nodes)"
    by simp_all
  then show ?thesis by (simp add: x_extent_def)
qed

lemma y_extent_nonneg: "nodes \<noteq> [] \<Longrightarrow> 0 \<le> y_extent nodes"
proof -
  assume "nodes \<noteq> []"
  then obtain n where n: "n \<in> set nodes" by (cases nodes) auto
  then have "Min (node_y ` set nodes) \<le> node_y n" "node_y n \<le> Max (node_y ` set nodes)"
    by simp_all
  then show ?thesis by (simp add: y_extent_def)
qed

lemma fit_scale_formula:
  assumes "nodes \<noteq> []"
  shows "fit_scale w h nodes
           = Some (min 1 (0.9 * min (w / (x_extent nodes + 2 * viewport_padding))
                                    (h / (y_extent nodes + 2 * viewport_padding))))"
proof -
  have "x_extent nodes + 2 * viewport_padding \<noteq> 0" "y_extent nodes + 2 * viewport_padding \<noteq> 0"
    using x_extent_nonneg[OF assms] y_extent_nonneg[OF assms]
    by (simp_all add: viewport_padding_def)
  then show ?thesis
    by (simp add: fit_scale_def treeWidth_value[OF assms] treeHeight_value[OF assms]
        js_div_def mult.commute)
qed

lemma fit_viewport_formula:
  assumes "nodes \<noteq> []" and "fit_scale w h nodes = Some sc" and "sc \<noteq> 0"
  shows "fit_viewport w h (nodes, cb)
           = Some (sc,
               map (\<lambda>n. n\<lparr> node_x := node_x n
                              + ((w / sc - x_extent nodes) / 2 - Min (node_x ` set nodes)),
                            node_y := node_y n
                              + ((h / sc - y_extent nodes) / 2 - Min (node_y ` set nodes)) \<rparr>)
                 nodes,
               map (\<lambda>(k, b). (k, b\<lparr> rect_x := rect_x b
                              + ((w / sc - x_extent nodes) / 2 - Min (node_x ` set nodes)),
                            rect_y := rect_y b
                              + ((h / sc - y_extent nodes) / 2 - Min (node_y ` set nodes)) \<rparr>))
                 cb)"
  using assms
  by (simp add: fit_viewport_def extent_Min_Max js_div_def Let_def x_extent_def y_extent_def)

lemma fit_viewport_zero_scale:
  assumes "nodes \<noteq> []" and "fit_scale w h nodes = Some 0"
  shows "fit_viewport w h (nodes, cb) = None"
  using assms by (simp add: fit_viewport_def extent_Min_Max js_div_def)

lemma scale_positive:
  fixes w h tw th :: real
  assumes "0 < w" and "0 < h" and "0 < tw" and "0 < th"
  shows "0 < min 1 (0.9 * min (w / tw) (h / th))"
  using assms by simp

lemma scale_zero:
  fixes w h tw th :: real
  assumes "0 \<le> w" and "0 \<le> h" and "w = 0 \<or> h = 0" and "0 < tw" and "0 < th"
  shows "min 1 (0.9 * min (w / tw) (h / th)) = 0"
proof -
  have "0 \<le> w / tw" "0 \<le> h / th" using assms by simp_all
  moreover have "w / tw = 0 \<or> h / th = 0" using assms(3) by auto
  ultimately have "min (w / tw) (h / th) = 0" by (auto simp: min_def)
  then show ?thesis by simp
qed

lemma single_node_extent:
  "x_extent (descendants (LNode d [])) = 0" "y_extent (descendants (LNode d [])) = 0"
  by (simp_all add: x_extent_def y_extent_def descendants_def)

text \<open>
  C6, as the code has it. For every tree and every viewport the scale is computed with two
  divisions only, by the extent of the node centres on each axis plus twice the padding of
  100: both divisors are at least 200, so neither division is by zero (for a single node
  both extents are zero and both divisors are 200), and the scale is
  \<open>min(1, 0.9 * min(w / treeWidth, h / treeHeight))\<close>, at most 1. The fitter then divides the
  width and the height of the viewport by that scale to get the offsets by which it moves
  every node and rectangle. For a viewport of positive width and height the scale is
  positive and the fitter returns. For a viewport whose width or height is zero the scale
  is zero and the offsets are not numbers.
\<close>

theorem viewport_scale_divides_by_padded_extent:
  "treeWidth (descendants t) = Some (x_extent (descendants t) + 2 * viewport_padding)
   \<and> treeHeight (descendants t) = Some (y_extent (descendants t) + 2 * viewport_padding)
   \<and> viewport_padding = 100
   \<and> 0 \<le> x_extent (descendants t) \<and> 0 \<le> y_extent (descendants t)
   \<and> js_div w (x_extent (descendants t) + 2 * viewport_padding)
       = Some (w / (x_extent (descendants t) + 2 * viewport_padding))
   \<and> js_div h (y_extent (descendants t) + 2 * viewport_padding)
       = Some (h / (y_extent (descendants t) + 2 * viewport_padding))
   \<and> fit_scale w h (descendants t)
       = Some (min 1 (0.9 * min (w / (x_extent (descendants t) + 2 * viewport_padding))
                                (h / (y_extent (descendants t) + 2 * viewport_padding))))
   \<and> min 1 (0.9 * min (w / (x_extent (descendants t) + 2 * viewport_padding))
                       (h / (y_extent (descendants t) + 2 * viewport_padding))) \<le> 1
   \<and> x_extent (descendants (LNode d [])) = 0 \<and> y_extent (descendants (LNode d [])) = 0
   \<and> (0 < w \<and> 0 < h \<longrightarrow>
        (\<exists>sc. fit_scale w h (descendants t) = Some sc \<and> 0 < sc
           \<and> fit_viewport w h (descendants t, cb)
               = Some (sc,
                   map (\<lambda>n. n\<lparr> node_x := node_x n + ((w / sc - x_extent (descendants t)) / 2
                                            - Min (node_x ` set (descendants t))),
                                node_y := node_y n + ((h / sc - y_extent (descendants t)) / 2
                                            - Min (node_y ` set (descendants t))) \<rparr>)
                     (descendants t),
                   map (\<lambda>(k, b). (k, b\<lparr> rect_x := rect_x b
                                            + ((w / sc - x_extent (descendants t)) / 2
                                            - Min (node_x ` set (descendants t))),
                                rect_y := rect_y b + ((h / sc - y_extent (descendants t)) / 2
                                            - Min (node_y ` set (descendants t))) \<rparr>))
                     cb)))
   \<and> (0 \<le> w \<and> 0 \<le> h \<and> (w = 0 \<or> h = 0) \<longrightarrow>
        fit_scale w h (descendants t) = Some 0 \<and> fit_viewport w h (descendants t, cb) = None)"
proof -
  let ?N = "descendants t"
  let ?tw = "x_extent ?N + 2 * viewport_padding" and ?th = "y_extent ?N + 2 * viewport_padding"
  have ne: "?N \<noteq> []" by (rule descendants_not_empty)
  have xe: "0 \<le> x_extent ?N" and ye: "0 \<le> y_extent ?N"
    by (rule x_extent_nonneg[OF ne], rule y_extent_nonneg[OF ne])
  have pos: "0 < ?tw" "0 < ?th" using xe ye by (simp_all add: viewport_padding_def)
  have c1: "treeWidth ?N = Some ?tw" by (rule treeWidth_value[OF ne])
  have c2: "treeHeight ?N = Some ?th" by (rule treeHeight_value[OF ne])
  have c3: "viewport_padding = 100" by (simp add: viewport_padding_def)
  have c4: "js_div w ?tw = Some (w / ?tw)" using pos(1) by (simp add: js_div_def)
  have c5: "js_div h ?th = Some (h / ?th)" using pos(2) by (simp add: js_div_def)
  have c6: "fit_scale w h ?N = Some (min 1 (0.9 * min (w / ?tw) (h / ?th)))"
    by (rule fit_scale_formula[OF ne])
  have c7: "min 1 (0.9 * min (w / ?tw) (h / ?th)) \<le> 1" by simp
  have c8: "x_extent (descendants (LNode d [])) = 0" "y_extent (descendants (LNode d [])) = 0"
    by (rule single_node_extent)+
  have c9: "0 < w \<and> 0 < h \<longrightarrow>
        (\<exists>sc. fit_scale w h ?N = Some sc \<and> 0 < sc
           \<and> fit_viewport w h (?N, cb)
               = Some (sc,
                   map (\<lambda>n. n\<lparr> node_x := node_x n + ((w / sc - x_extent ?N) / 2
                                            - Min (node_x ` set ?N)),
                                node_y := node_y n + ((h / sc - y_extent ?N) / 2
                                            - Min (node_y ` set ?N)) \<rparr>)
                     ?N,
                   map (\<lambda>(k, b). (k, b\<lparr> rect_x := rect_x b
                                            + ((w / sc - x_extent ?N) / 2
                                            - Min (node_x ` set ?N)),
                                rect_y := rect_y b + ((h / sc - y_extent ?N) / 2
                                            - Min (node_y ` set ?N)) \<rparr>))
                     cb))"
  proof
    assume wh: "0 < w \<and> 0 < h"
    define sc where "sc = min 1 (0.9 * min (w / ?tw) (h / ?th))"
    have p: "0 < sc" unfolding sc_def using wh pos by (intro scale_positive) simp_all
    have s: "fit_scale w h ?N = Some sc" using c6 by (simp add: sc_def)
    from p have nz: "sc \<noteq> 0" by simp
    from fit_viewport_formula[OF ne s nz, of cb] s p
    show "\<exists>sc. fit_scale w h ?N = Some sc \<and> 0 < sc
           \<and> fit_viewport w h (?N, cb)
               = Some (sc,
                   map (\<lambda>n. n\<lparr> node_x := node_x n + ((w / sc - x_extent ?N) / 2
                                            - Min (node_x ` set ?N)),
                                node_y := node_y n + ((h / sc - y_extent ?N) / 2
                                            - Min (node_y ` set ?N)) \<rparr>)
                     ?N,
                   map (\<lambda>(k, b). (k, b\<lparr> rect_x := rect_x b
                                            + ((w / sc - x_extent ?N) / 2
                                            - Min (node_x ` set ?N)),
                                rect_y := rect_y b + ((h / sc - y_extent ?N) / 2
                                            - Min (node_y ` set ?N)) \<rparr>))
                     cb)"
      by (intro exI[where x = sc] conjI)
  qed
  have c10: "0 \<le> w \<and> 0 \<le> h \<and> (w = 0 \<or> h = 0) \<longrightarrow>
        fit_scale w h ?N = Some 0 \<and> fit_viewport w h (?N, cb) = None"
  proof
    assume a: "0 \<le> w \<and> 0 \<le> h \<and> (w = 0 \<or> h = 0)"
    then have e: "min 1 (0.9 * min (w / ?tw) (h / ?th)) = 0"
      using pos by (intro scale_zero) simp_all
    have z: "fit_scale w h ?N = Some 0" by (simp only: c6 e)
    from fit_viewport_zero_scale[OF ne z] z
    show "fit_scale w h ?N = Some 0 \<and> fit_viewport w h (?N, cb) = None" by simp
  qed
  show ?thesis
    using c1 c2 c3 xe ye c4 c5 c6 c7 c8 c9 c10 by (simp only: simp_thms)
qed

theorem viewport_scale_divides_by_padded_extent_witness:
  "fit_scale 800 600 (descendants single_root) = Some 1
   \<and> (\<exists>sc. fit_scale 800 600 (descendants single_root) = Some sc \<and> 0 < sc
         \<and> (\<exists>r. fit_viewport 800 600 (descendants single_root, []) = Some (sc, r)))
   \<and> fit_viewport 0 600 (descendants single_root, []) = None"
proof -
  have s: "fit_scale 800 600 (descendants single_root) = Some 1"
    by (simp add: fit_scale_def treeWidth_def treeHeight_def descendants_def extent_def
        min_of_def max_of_def math_min_def math_max_def viewport_padding_def js_div_def
        single_root_def fresh_def)
  have p: "(0::real) < 800 \<and> (0::real) < 600" by simp
  have z: "(0::real) \<le> 0 \<and> (0::real) \<le> 600 \<and> ((0::real) = 0 \<or> (600::real) = 0)" by simp
  from viewport_scale_divides_by_padded_extent[of single_root 800 600 _ "[]"] p
  have a: "\<exists>sc. fit_scale 800 600 (descendants single_root) = Some sc \<and> 0 < sc
         \<and> (\<exists>r. fit_viewport 800 600 (descendants single_root, []) = Some (sc, r))"
    by blast
  from viewport_scale_divides_by_padded_extent[of single_root 0 600 _ "[]"] z
  have b: "fit_viewport 0 600 (descendants single_root, []) = None"
    by blast
  from s a b show ?thesis by (simp only: simp_thms)
qed

text \<open>
  C6 as claimed fails for a viewport of width 0: the scale of the single node is 0, and
  the fitter divides the width by it.
\<close>

theorem zero_viewport_divides_by_zero_counterexample:
  "fit_scale 0 600 (descendants single_root) = Some 0
   \<and> js_div 0 0 = None
   \<and> fit_viewport 0 600 (descendants single_root, []) = None"
  by (simp add: fit_viewport_def fit_scale_def treeWidth_def treeHeight_def descendants_def
      extent_def min_of_def max_of_def math_min_def math_max_def viewport_padding_def
      js_div_def single_root_def fresh_def)

end
